theory Spec2Isabelle
  imports Complex_Main
begin

section \<open>GraphDisplay: the dependency graph of the models of interest\<close>

text \<open>
  The development follows \<^verbatim>\<open>src/pages/ModelOfInterest/GraphDisplay/index.tsx\<close>.
  The component fetches a JSON array of records, builds nodes and links from it, hands
  them to a force simulation of the d3 library and reacts to drag and click events.
\<close>

subsection \<open>Values and errors of the run time\<close>

text \<open>
  The fields \<^verbatim>\<open>item.name\<close> and the entries of \<^verbatim>\<open>item.dependencies\<close> are
  cast to \<^verbatim>\<open>string\<close> by the source. Reading a property that the parsed record does not
  have yields \<^verbatim>\<open>undefined\<close>, so a name at run time is a string or \<^verbatim>\<open>undefined\<close>.
\<close>

datatype jsval = Undefined | Str string

text \<open>String conversion, as done by \<^verbatim>\<open>+\<close> on a string and by a template literal.\<close>

fun toString :: "jsval \<Rightarrow> string" where
  "toString Undefined = ''undefined''"
| "toString (Str s) = s"

text \<open>
  The exceptions that can travel through the promise chain: \<^verbatim>\<open>new Error(msg)\<close> thrown by
  the source, the \<^verbatim>\<open>TypeError\<close> of the engine for a call of \<^verbatim>\<open>forEach\<close> on a value that
  has none (its message text is the engine's and is not modelled), and the
  \<^verbatim>\<open>SyntaxError\<close> of \<^verbatim>\<open>response.json()\<close> with its diagnostic.
\<close>

datatype js_error = Error string | TypeError | SyntaxError string

text \<open>
  One record of the fetched array. \<open>dependencies\<close> is \<open>None\<close> when the property is absent
  or holds anything but an array: in all these cases \<^verbatim>\<open>item.dependencies.forEach(...)\<close>
  throws a \<^verbatim>\<open>TypeError\<close>. \<open>item_name\<close> is what \<^verbatim>\<open>item.name\<close> evaluates to.
\<close>

record Item =
  item_name :: jsval
  dependencies :: "string list option"

subsection \<open>Nodes and links\<close>

text \<open>
  \<^verbatim>\<open>interface Node extends d3.SimulationNodeDatum\<close>: the fields of the simulation that the
  source reads or writes come first. An optional field that is not set is \<open>None\<close>
  (\<^verbatim>\<open>undefined\<close> or \<^verbatim>\<open>null\<close>). Coordinates are real numbers here; the values
  \<^verbatim>\<open>NaN\<close> and \<^verbatim>\<open>-0\<close> of the machine numbers have no counterpart.
\<close>

record SimulationNodeDatum =
  x :: "real option"
  y :: "real option"
  vx :: "real option"
  vy :: "real option"
  fx :: "real option"
  fy :: "real option"

record Node = SimulationNodeDatum +
  name :: jsval
  color :: string
  model_url :: "string option"
  isDependency :: bool

text \<open>
  \<^verbatim>\<open>interface Link\<close>: the end points are node names when the links are built; the link
  force of d3 later replaces them by the node objects, which is what \<^verbatim>\<open>ticked\<close> reads.
\<close>

record 'e Link =
  source :: 'e
  target :: 'e

record Graph =
  nodes :: "Node list"
  links :: "jsval Link list"

subsection \<open>Building the graph (lines 35 to 57)\<close>

text \<open>\<^verbatim>\<open>Array.prototype.forEach\<close> with a callback that may throw; the state is threaded.\<close>

fun forEach :: "'a list \<Rightarrow> ('a \<Rightarrow> 's \<Rightarrow> js_error + 's) \<Rightarrow> 's \<Rightarrow> js_error + 's" where
  "forEach [] f s = Inr s"
| "forEach (a # as) f s = (case f a s of Inl e \<Rightarrow> Inl e | Inr s' \<Rightarrow> forEach as f s')"

text \<open>\<^verbatim>\<open>item.dependencies.forEach(f)\<close>: a \<^verbatim>\<open>TypeError\<close> unless the field is an array.\<close>

definition dependencies_forEach ::
  "Item \<Rightarrow> (string \<Rightarrow> 's \<Rightarrow> js_error + 's) \<Rightarrow> 's \<Rightarrow> js_error + 's" where
  "dependencies_forEach item f s =
     (case dependencies item of None \<Rightarrow> Inl TypeError | Some deps \<Rightarrow> forEach deps f s)"

text \<open>\<^verbatim>\<open>Set.prototype.add\<close>: a set keeps its elements in insertion order, each once.\<close>

definition add :: "jsval list \<Rightarrow> jsval \<Rightarrow> jsval list" where
  "add s v = (if v \<in> set s then s else s @ [v])"

definition nodesSet_item :: "Item \<Rightarrow> jsval list \<Rightarrow> js_error + jsval list" where
  "nodesSet_item item s =
     dependencies_forEach item (\<lambda>dep s'. Inr (add s' (Str dep))) (add s (item_name item))"

definition nodesSet :: "Item list \<Rightarrow> js_error + jsval list" where
  "nodesSet data = forEach data nodesSet_item []"

definition url :: string where
  "url = ''/BeSLighthouse/model_report''"

text \<open>
  \<^verbatim>\<open>getModelUrl\<close>: \<^verbatim>\<open>data.find\<close> returns the first record of that name, an object and
  hence truthy, or \<^verbatim>\<open>undefined\<close>.
\<close>

definition getModelUrl :: "Item list \<Rightarrow> jsval \<Rightarrow> string option" where
  "getModelUrl data nodeName =
     (case find (\<lambda>item. item_name item = nodeName) data of
        Some nodeData \<Rightarrow> Some (url @ toString nodeName)
      | None \<Rightarrow> None)"

definition new_node :: "Item list \<Rightarrow> jsval \<Rightarrow> Node" where
  "new_node data nm =
     \<lparr>x = None, y = None, vx = None, vy = None, fx = None, fy = None,
      name = nm, color = ''#0077cc'', model_url = getModelUrl data nm, isDependency = False\<rparr>"

text \<open>
  \<^verbatim>\<open>const depNode = nodes.find(...); if (depNode) depNode.isDependency = true\<close>: the first
  node of that name is updated in place.
\<close>

fun mark_dependency :: "jsval \<Rightarrow> Node list \<Rightarrow> Node list" where
  "mark_dependency dep [] = []"
| "mark_dependency dep (n # ns) =
     (if name n = dep then n\<lparr>isDependency := True\<rparr> # ns else n # mark_dependency dep ns)"

definition links_item ::
  "Item \<Rightarrow> Node list \<times> jsval Link list \<Rightarrow> js_error + Node list \<times> jsval Link list" where
  "links_item item =
     dependencies_forEach item
       (\<lambda>dep (ns, ls).
          Inr (mark_dependency (Str dep) ns, ls @ [\<lparr>source = item_name item, target = Str dep\<rparr>]))"

text \<open>
  The body of the second \<^verbatim>\<open>then\<close> callback up to the rendering, called GraphBuilder by
  the specification. An exception leaves the callback at once.
\<close>

definition GraphBuilder :: "Item list \<Rightarrow> js_error + Graph" where
  "GraphBuilder data =
     (case nodesSet data of
        Inl e \<Rightarrow> Inl e
      | Inr s \<Rightarrow>
          (case forEach data links_item (map (new_node data) s, []) of
             Inl e \<Rightarrow> Inl e
           | Inr (ns, ls) \<Rightarrow> Inr \<lparr>nodes = ns, links = ls\<rparr>))"

subsection \<open>What the graph is compared with\<close>

text \<open>
  The names and the pairs that a list of records mentions, in the order of the records,
  with repetitions. A record without an array of dependencies mentions only its name.
\<close>

definition has_array :: "Item \<Rightarrow> bool" where
  "has_array item = (dependencies item \<noteq> None)"

definition deps_of :: "Item \<Rightarrow> string list" where
  "deps_of item = (case dependencies item of None \<Rightarrow> [] | Some deps \<Rightarrow> deps)"

definition item_names :: "Item \<Rightarrow> jsval list" where
  "item_names item = item_name item # map Str (deps_of item)"

definition all_names :: "Item list \<Rightarrow> jsval list" where
  "all_names data = concat (map item_names data)"

definition item_links :: "Item \<Rightarrow> jsval Link list" where
  "item_links item =
     map (\<lambda>dep. \<lparr>source = item_name item, target = Str dep\<rparr>) (deps_of item)"

definition all_links :: "Item list \<Rightarrow> jsval Link list" where
  "all_links data = concat (map item_links data)"

text \<open>The elements of a list in the order of their first occurrence.\<close>

definition first_seen :: "jsval list \<Rightarrow> jsval list" where
  "first_seen vs = fold (\<lambda>v s. add s v) vs []"

subsection \<open>Clicking a node (lines 114 to 118)\<close>

text \<open>Truthiness of \<^verbatim>\<open>d.model_url\<close>: \<^verbatim>\<open>null\<close> and the empty string are falsy.\<close>

definition truthy_url :: "string option \<Rightarrow> bool" where
  "truthy_url u = (case u of None \<Rightarrow> False | Some s \<Rightarrow> s \<noteq> [])"

text \<open>
  The value of \<^verbatim>\<open>event.active\<close> as a handler reads it: \<open>None\<close> when the event has no
  such property (\<^verbatim>\<open>undefined\<close>), a count of gestures otherwise. \<^verbatim>\<open>undefined\<close> and 0 are
  falsy.
\<close>

definition truthy_active :: "nat option \<Rightarrow> bool" where
  "truthy_active a = (case a of None \<Rightarrow> False | Some k \<Rightarrow> k \<noteq> 0)"

text \<open>
  \<^verbatim>\<open>handleNodeClick\<close>: the first argument is the value of \<^verbatim>\<open>event.active\<close>. The result
  lists the calls of \<^verbatim>\<open>window.open\<close> with their two arguments.
\<close>

definition handleNodeClick :: "nat option \<Rightarrow> Node \<Rightarrow> (string \<times> string) list" where
  "handleNodeClick event_active d =
     (if truthy_url (model_url d) \<and> \<not> truthy_active event_active
      then [(''/BeSLighthouse/model_report/:'' @ toString (name d), ''_blank'')]
      else [])"

text \<open>
  The listener of line 110, \<^verbatim>\<open>.on("click", (event, d) => handleNodeClick(event, d))\<close>:
  the event that it passes on is the click event of the document, which has no property
  \<^verbatim>\<open>active\<close> (only the events of the drag behaviour have one).
\<close>

definition click :: "Node \<Rightarrow> (string \<times> string) list" where
  "click d = handleNodeClick None d"

subsection \<open>Fetching (lines 26 to 33 and 168 to 170)\<close>

text \<open>Decimal notation of a natural number, as \<^verbatim>\<open>${response.status}\<close> prints it.\<close>

function show_nat :: "nat \<Rightarrow> string" where
  "show_nat n =
     (if n < 10 then [''0123456789'' ! n]
      else show_nat (n div 10) @ [''0123456789'' ! (n mod 10)])"
  by pat_completeness auto
termination
  by (relation "measure id") auto

declare show_nat.simps [simp del]

text \<open>
  A response as the source reads it: the status code, and what \<^verbatim>\<open>response.json()\<close>
  settles with, either the diagnostic of the parse failure or the parsed array.
\<close>

record Response =
  status :: nat
  json :: "string + Item list"

text \<open>The \<^verbatim>\<open>ok\<close> getter of the Fetch interface: the status is in the range 200 to 299.\<close>

definition ok :: "Response \<Rightarrow> bool" where
  "ok response = (200 \<le> status response \<and> status response \<le> 299)"

text \<open>
  What the effect leaves behind: the errors whose message \<^verbatim>\<open>console.error\<close> printed
  after \<^verbatim>\<open>"Error fetching data:"\<close>, and the graph handed to the rendering, if any.
\<close>

record View =
  console :: "js_error list"
  rendered :: "Graph option"

text \<open>
  \<^verbatim>\<open>promise.then(f)\<close> and \<^verbatim>\<open>promise.catch(f)\<close> on a settled promise: \<open>Inl\<close> is a
  rejection; a callback that throws rejects the promise it returns.
\<close>

definition then_promise :: "js_error + 'a \<Rightarrow> ('a \<Rightarrow> js_error + 'b) \<Rightarrow> js_error + 'b" where
  "then_promise p f = (case p of Inl e \<Rightarrow> Inl e | Inr v \<Rightarrow> f v)"

definition catch_promise :: "js_error + 'a \<Rightarrow> (js_error \<Rightarrow> js_error + 'a) \<Rightarrow> js_error + 'a" where
  "catch_promise p f = (case p of Inl e \<Rightarrow> f e | Inr v \<Rightarrow> Inr v)"

definition on_response :: "Response \<Rightarrow> js_error + Item list" where
  "on_response response =
     (if \<not> ok response
      then Inl (Error (''Failed to fetch data. Status: '' @ show_nat (status response)))
      else (case json response of Inl diagnostic \<Rightarrow> Inl (SyntaxError diagnostic)
            | Inr data \<Rightarrow> Inr data))"

definition on_data :: "Item list \<Rightarrow> js_error + View" where
  "on_data data =
     (case GraphBuilder data of
        Inl e \<Rightarrow> Inl e
      | Inr g \<Rightarrow> Inr \<lparr>console = [], rendered = Some g\<rparr>)"

definition on_error :: "js_error \<Rightarrow> js_error + View" where
  "on_error e = Inr \<lparr>console = [e], rendered = None\<rparr>"

text \<open>
  The effect of the component, given what \<^verbatim>\<open>fetch\<close> settles with. \<open>Inl\<close> as result
  would be a rejection that leaves the effect uncaught.
\<close>

definition GraphDisplay :: "js_error + Response \<Rightarrow> js_error + View" where
  "GraphDisplay fetched =
     catch_promise (then_promise (then_promise fetched on_response) on_data) on_error"

subsection \<open>Dragging a node (lines 151 to 166)\<close>

text \<open>
  The simulation object as far as the handlers touch it: its nodes, addressed by their
  position in the array, the target of alpha, and whether the timer runs
  (\<^verbatim>\<open>restart()\<close>). The drag event carries \<^verbatim>\<open>event.active\<close>, the number of other drag
  gestures in progress, and the pointer position \<^verbatim>\<open>event.x\<close>, \<^verbatim>\<open>event.y\<close>.
\<close>

record Simulation =
  sim_nodes :: "Node list"
  alphaTarget :: real
  running :: bool

record DragEvent =
  active :: nat
  event_x :: real
  event_y :: real

text \<open>An assignment to fields of the node object \<open>d\<close>, the \<open>i\<close>-th node of the simulation.\<close>

definition update_node :: "nat \<Rightarrow> (Node \<Rightarrow> Node) \<Rightarrow> Simulation \<Rightarrow> Simulation" where
  "update_node i f sim = sim\<lparr>sim_nodes := (sim_nodes sim)[i := f (sim_nodes sim ! i)]\<rparr>"

definition dragstarted :: "DragEvent \<Rightarrow> nat \<Rightarrow> Simulation \<Rightarrow> Simulation" where
  "dragstarted event i sim =
     update_node i (\<lambda>d. d\<lparr>fx := x d, fy := y d\<rparr>)
       (if active event = 0 then sim\<lparr>alphaTarget := 0.5, running := True\<rparr> else sim)"

definition dragged :: "DragEvent \<Rightarrow> nat \<Rightarrow> Simulation \<Rightarrow> Simulation" where
  "dragged event i sim =
     update_node i (\<lambda>d. d\<lparr>fx := Some (event_x event), fy := Some (event_y event)\<rparr>) sim"

definition dragended :: "DragEvent \<Rightarrow> nat \<Rightarrow> Simulation \<Rightarrow> Simulation" where
  "dragended event i sim =
     update_node i (\<lambda>d. d\<lparr>fx := None, fy := None\<rparr>)
       (if active event = 0 then sim\<lparr>alphaTarget := 0\<rparr> else sim)"

text \<open>
  Modelled from the spec: the tick of the force simulation, which is code of the d3
  library and not part of the sources at hand. Section 4.2 of the specification: a node
  with pinned coordinates skips free integration but still has its position set to the
  pinned coordinates each tick. The free integration under the forces of all nodes is
  the parameter \<open>free\<close>, about which nothing is assumed.
\<close>

definition tick_node :: "(Node list \<Rightarrow> Node \<Rightarrow> Node) \<Rightarrow> Node list \<Rightarrow> Node \<Rightarrow> Node" where
  "tick_node free ns n =
     (case (fx n, fy n) of
        (Some px, Some py) \<Rightarrow> n\<lparr>x := Some px, y := Some py\<rparr>
      | _ \<Rightarrow> free ns n)"

definition tick :: "(Node list \<Rightarrow> Node \<Rightarrow> Node) \<Rightarrow> Simulation \<Rightarrow> Simulation" where
  "tick free sim = sim\<lparr>sim_nodes := map (tick_node free (sim_nodes sim)) (sim_nodes sim)\<rparr>"

text \<open>What happens to a simulation, one event after the other.\<close>

datatype event = Tick | DragStart DragEvent nat | Drag DragEvent nat | DragEnd DragEvent nat

fun step :: "(Node list \<Rightarrow> Node \<Rightarrow> Node) \<Rightarrow> event \<Rightarrow> Simulation \<Rightarrow> Simulation" where
  "step free Tick sim = tick free sim"
| "step free (DragStart ev i) sim = dragstarted ev i sim"
| "step free (Drag ev i) sim = dragged ev i sim"
| "step free (DragEnd ev i) sim = dragended ev i sim"

definition run :: "(Node list \<Rightarrow> Node \<Rightarrow> Node) \<Rightarrow> event list \<Rightarrow> Simulation \<Rightarrow> Simulation" where
  "run free es sim = fold (step free) es sim"

text \<open>The events that are drag events of the \<open>i\<close>-th node.\<close>

fun drag_of :: "nat \<Rightarrow> event \<Rightarrow> bool" where
  "drag_of i Tick = False"
| "drag_of i (DragStart ev j) = (i = j)"
| "drag_of i (Drag ev j) = (i = j)"
| "drag_of i (DragEnd ev j) = (i = j)"

subsection \<open>The energy of the simulation\<close>

text \<open>
  Modelled from the spec: the energy alpha of the force simulation, which the d3 library
  keeps and the sources at hand never read or write. Section 4.2 of the specification:
  alpha is a scalar in the interval from 0 to 1 that decays geometrically each tick
  (exponential decay toward zero) until it reaches a floor; alpha reaching the floor
  halts further position updates until the simulation is re-energized. The ratio of the
  decay and the floor are parameters. A tick of an engine whose alpha has reached the
  floor changes nothing; any other tick multiplies alpha by the ratio and moves the
  nodes by \<open>tick\<close>.
\<close>

record Engine =
  alpha :: real
  simulation :: Simulation

definition engine_tick ::
  "real \<Rightarrow> real \<Rightarrow> (Node list \<Rightarrow> Node \<Rightarrow> Node) \<Rightarrow> Engine \<Rightarrow> Engine" where
  "engine_tick ratio alpha_floor free e =
     (if alpha e \<le> alpha_floor then e
      else \<lparr>alpha = ratio * alpha e, simulation = tick free (simulation e)\<rparr>)"

text \<open>The engine after \<open>n\<close> ticks, with no drag event in between.\<close>

primrec engine_ticks ::
  "nat \<Rightarrow> real \<Rightarrow> real \<Rightarrow> (Node list \<Rightarrow> Node \<Rightarrow> Node) \<Rightarrow> Engine \<Rightarrow> Engine" where
  "engine_ticks 0 ratio alpha_floor free e = e"
| "engine_ticks (Suc n) ratio alpha_floor free e =
     engine_tick ratio alpha_floor free (engine_ticks n ratio alpha_floor free e)"

subsection \<open>Rendering on a tick (lines 133 to 143)\<close>

text \<open>Truthiness of a coordinate: \<^verbatim>\<open>undefined\<close> and zero are falsy.\<close>

definition truthy :: "real option \<Rightarrow> bool" where
  "truthy v = (case v of None \<Rightarrow> False | Some c \<Rightarrow> c \<noteq> 0)"

text \<open>The expression \<^verbatim>\<open>v || 0\<close>.\<close>

definition or_zero :: "real option \<Rightarrow> real" where
  "or_zero v = (case v of None \<Rightarrow> 0 | Some c \<Rightarrow> (if c \<noteq> 0 then c else 0))"

text \<open>
  The attributes that \<^verbatim>\<open>ticked\<close> sets: \<^verbatim>\<open>x1, y1, x2, y2\<close> of every line,
  \<^verbatim>\<open>cx, cy\<close> of every circle and \<^verbatim>\<open>x, y\<close> of every text.
\<close>

record Attributes =
  line :: "(real \<times> real \<times> real \<times> real) list"
  circle :: "(real \<times> real) list"
  text_xy :: "(real \<times> real) list"

definition ticked :: "Node Link list \<Rightarrow> Node list \<Rightarrow> Attributes" where
  "ticked link node =
     \<lparr>line = map (\<lambda>d. (or_zero (x (source d)), or_zero (y (source d)),
                       or_zero (x (target d)), or_zero (y (target d)))) link,
      circle = map (\<lambda>d. (or_zero (x d), or_zero (y d))) node,
      text_xy = map (\<lambda>d. (or_zero (x d), or_zero (y d))) node\<rparr>"

section \<open>Properties\<close>

subsection \<open>Lemmas about the loops\<close>

lemma forEach_total:
  "(\<And>a s. f a s = Inr (g a s)) \<Longrightarrow> forEach as f s = Inr (fold g as s)"
  by (induction as arbitrary: s) simp_all

lemma set_add: "set (add s v) = insert v (set s)"
  by (auto simp: add_def)

lemma distinct_add: "distinct (add s v) = distinct s"
  by (simp add: add_def)

lemma set_fold_add: "set (fold (\<lambda>v s. add s v) vs s) = set s \<union> set vs"
  by (induction vs arbitrary: s) (auto simp: set_add)

lemma distinct_fold_add: "distinct (fold (\<lambda>v s. add s v) vs s) = distinct s"
  by (induction vs arbitrary: s) (auto simp: distinct_add)

lemma set_first_seen: "set (first_seen vs) = set vs"
  by (simp add: first_seen_def set_fold_add)

lemma distinct_first_seen: "distinct (first_seen vs)"
  by (simp add: first_seen_def distinct_fold_add)

lemma nodesSet_item_Inr:
  "nodesSet_item item s = Inr s' \<longleftrightarrow>
     has_array item \<and> s' = fold (\<lambda>v s. add s v) (item_names item) s"
  by (auto simp: nodesSet_item_def dependencies_forEach_def has_array_def item_names_def
      deps_of_def forEach_total fold_map comp_def split: option.splits)

lemma nodesSet_item_Inl: "nodesSet_item item s = Inl e \<Longrightarrow> e = TypeError"
  by (auto simp: nodesSet_item_def dependencies_forEach_def forEach_total split: option.splits)

lemma forEach_nodesSet_item:
  "forEach data nodesSet_item s = Inr s' \<longleftrightarrow>
     list_all has_array data \<and> s' = fold (\<lambda>v s. add s v) (all_names data) s"
proof (induction data arbitrary: s)
  case Nil
  show ?case by (auto simp: all_names_def)
next
  case (Cons item data)
  show ?case
  proof (cases "nodesSet_item item s")
    case (Inl e)
    then have "\<not> has_array item"
      using nodesSet_item_Inr [of item s] by auto
    with Inl show ?thesis by simp
  next
    case (Inr s1)
    then have h: "has_array item" and s1: "s1 = fold (\<lambda>v s. add s v) (item_names item) s"
      using nodesSet_item_Inr [of item s s1] by auto
    show ?thesis using Inr h s1 Cons.IH [of s1] by (simp add: all_names_def)
  qed
qed

lemma forEach_nodesSet_item_Inl:
  "forEach data nodesSet_item s = Inl e \<Longrightarrow> e = TypeError"
proof (induction data arbitrary: s)
  case Nil
  then show ?case by simp
next
  case (Cons item data)
  then show ?case
    by (cases "nodesSet_item item s") (auto dest: nodesSet_item_Inl)
qed

lemma mark_dependency_map:
  "distinct (map name ns) \<Longrightarrow>
   mark_dependency d ns = map (\<lambda>n. if name n = d then n\<lparr>isDependency := True\<rparr> else n) ns"
proof (induction ns)
  case Nil
  show ?case by simp
next
  case (Cons n ns)
  show ?case
  proof (cases "name n = d")
    case True
    from Cons.prems have "name n \<notin> name ` set ns" by simp
    then have "\<forall>m \<in> set ns. name m \<noteq> name n" by (metis imageI)
    with True have "\<forall>m \<in> set ns. name m \<noteq> d" by simp
    then have "map (\<lambda>n. if name n = d then n\<lparr>isDependency := True\<rparr> else n) ns = ns"
      by (induction ns) auto
    with True show ?thesis by simp
  next
    case False
    with Cons show ?thesis by simp
  qed
qed

lemma mark_dependency_names: "map name (mark_dependency d ns) = map name ns"
  by (induction ns) auto

lemma fold_mark_dependency:
  "distinct (map name ns) \<Longrightarrow>
   fold mark_dependency ds ns =
     map (\<lambda>n. if name n \<in> set ds then n\<lparr>isDependency := True\<rparr> else n) ns"
proof (induction ds arbitrary: ns)
  case Nil
  show ?case by (simp add: map_idI)
next
  case (Cons d ds)
  have "distinct (map name (mark_dependency d ns))"
    using Cons.prems by (simp add: mark_dependency_names)
  from Cons.IH [OF this] show ?case
    by (auto simp: mark_dependency_map [OF Cons.prems])
qed

lemma links_item_Inr:
  "links_item item (ns, ls) = Inr r \<longleftrightarrow>
     has_array item \<and>
     r = (fold mark_dependency (map target (item_links item)) ns, ls @ item_links item)"
proof (cases "dependencies item")
  case None
  then show ?thesis by (simp add: links_item_def dependencies_forEach_def has_array_def)
next
  case (Some deps)
  have "forEach ds
          (\<lambda>dep (ns, ls). Inr (mark_dependency (Str dep) ns,
                               ls @ [\<lparr>source = item_name item, target = Str dep\<rparr>])) (ns, ls)
        = Inr (fold mark_dependency (map Str ds) ns,
               ls @ map (\<lambda>dep. \<lparr>source = item_name item, target = Str dep\<rparr>) ds)"
    for ds ns ls
    by (induction ds arbitrary: ns ls) simp_all
  with Some show ?thesis
    by (auto simp: links_item_def dependencies_forEach_def has_array_def item_links_def
        deps_of_def comp_def)
qed

lemma forEach_links_item:
  "forEach data links_item (ns, ls) = Inr r \<longleftrightarrow>
     list_all has_array data \<and>
     r = (fold mark_dependency (map target (all_links data)) ns, ls @ all_links data)"
proof (induction data arbitrary: ns ls)
  case Nil
  show ?case by (auto simp: all_links_def)
next
  case (Cons item data)
  show ?case
  proof (cases "links_item item (ns, ls)")
    case (Inl e)
    then have "\<not> has_array item"
      using links_item_Inr [of item ns ls] by auto
    with Inl show ?thesis by simp
  next
    case (Inr r1)
    then have h: "has_array item"
      and r1: "r1 = (fold mark_dependency (map target (item_links item)) ns, ls @ item_links item)"
      using links_item_Inr [of item ns ls r1] by auto
    show ?thesis using Inr h Cons.IH [of "fst r1" "snd r1"]
      by (simp add: r1 all_links_def)
  qed
qed

text \<open>The graph that the construction returns when it returns one.\<close>

lemma GraphBuilder_Inr:
  "GraphBuilder data = Inr g \<longleftrightarrow>
     list_all has_array data \<and>
     g = \<lparr>nodes = map (\<lambda>v. (new_node data v)\<lparr>isDependency := v \<in> target ` set (all_links data)\<rparr>)
                      (first_seen (all_names data)),
          links = all_links data\<rparr>"
proof (cases "list_all has_array data")
  case False
  then have "nodesSet data \<noteq> Inr s" for s
    by (simp add: nodesSet_def forEach_nodesSet_item)
  then obtain e where "nodesSet data = Inl e"
    by (cases "nodesSet data") auto
  with False show ?thesis by (simp add: GraphBuilder_def)
next
  case True
  let ?s = "first_seen (all_names data)"
  let ?ns = "map (new_node data) ?s"
  have s: "nodesSet data = Inr ?s"
    using True by (simp add: nodesSet_def forEach_nodesSet_item first_seen_def)
  have d: "distinct (map name ?ns)"
    by (simp add: comp_def new_node_def distinct_first_seen)
  have l: "forEach data links_item (?ns, []) =
      Inr (fold mark_dependency (map target (all_links data)) ?ns, all_links data)"
    using True forEach_links_item [of data ?ns "[]"] by simp
  have "fold mark_dependency (map target (all_links data)) ?ns =
        map (\<lambda>v. (new_node data v)\<lparr>isDependency := v \<in> target ` set (all_links data)\<rparr>) ?s"
    unfolding fold_mark_dependency [OF d]
    by (auto simp: new_node_def)
  with s l True show ?thesis
    by (auto simp: GraphBuilder_def)
qed

lemma GraphBuilder_Inl:
  "\<not> list_all has_array data \<Longrightarrow> GraphBuilder data = Inl TypeError"
proof -
  assume a: "\<not> list_all has_array data"
  then have "nodesSet data \<noteq> Inr s" for s
    by (simp add: nodesSet_def forEach_nodesSet_item)
  then obtain e where e: "nodesSet data = Inl e"
    by (cases "nodesSet data") auto
  then have "e = TypeError"
    by (auto simp: nodesSet_def dest: forEach_nodesSet_item_Inl)
  with e show ?thesis by (simp add: GraphBuilder_def)
qed

lemma target_all_links:
  "target ` set (all_links data) = (\<Union>item \<in> set data. Str ` set (deps_of item))"
  by (simp add: all_links_def item_links_def image_UN image_image)

lemma source_all_links:
  "l \<in> set (all_links data) \<Longrightarrow> source l \<in> item_name ` set data"
  by (auto simp: all_links_def item_links_def)

lemma set_all_names:
  "set (all_names data) = item_name ` set data \<union> (\<Union>item \<in> set data. Str ` set (deps_of item))"
  by (auto simp: all_names_def item_names_def)

lemma names_nodes:
  "GraphBuilder data = Inr g \<Longrightarrow> map name (nodes g) = first_seen (all_names data)"
  by (auto simp: GraphBuilder_Inr comp_def new_node_def)

lemma getModelUrl_eq:
  "getModelUrl data v =
     (if \<exists>item \<in> set data. item_name item = v then Some (url @ toString v) else None)"
proof (cases "find (\<lambda>item. item_name item = v) data")
  case None
  then have "\<not> (\<exists>item \<in> set data. item_name item = v)"
    unfolding find_None_iff by blast
  with None show ?thesis
    by (simp add: getModelUrl_def)
next
  case (Some nodeData)
  then have "find (\<lambda>item. item_name item = v) data \<noteq> None"
    by simp
  then have "\<exists>item \<in> set data. item_name item = v"
    unfolding find_None_iff by blast
  with Some show ?thesis
    by (simp add: getModelUrl_def)
qed

lemma GraphBuilder_returns:
  "list_all has_array data \<Longrightarrow> \<exists>g. GraphBuilder data = Inr g"
  by (simp add: GraphBuilder_Inr)

lemmas GraphBuilder_eval =
  GraphBuilder_def nodesSet_def nodesSet_item_def dependencies_forEach_def add_def
  links_item_def new_node_def getModelUrl_def url_def

subsection \<open>The graph that is built\<close>

text \<open>
  Claim C1. For every list of records whose dependencies are arrays, the construction
  returns a graph, and in it \<open>isDependency\<close> of a node is true if and only if the name of
  the node is the target of at least one link of the graph.
\<close>

theorem isDependency_iff_target:
  "list_all has_array data \<Longrightarrow>
   \<exists>g. GraphBuilder data = Inr g \<and>
       (\<forall>n \<in> set (nodes g). isDependency n \<longleftrightarrow> name n \<in> target ` set (links g))"
  by (auto simp: GraphBuilder_Inr new_node_def)

theorem isDependency_iff_target_witness:
  "list_all has_array
     [\<lparr>item_name = Str ''A'', dependencies = Some [''B'']\<rparr>,
      \<lparr>item_name = Str ''B'', dependencies = Some []\<rparr>] \<and>
   (\<exists>g. GraphBuilder [\<lparr>item_name = Str ''A'', dependencies = Some [''B'']\<rparr>,
                       \<lparr>item_name = Str ''B'', dependencies = Some []\<rparr>] = Inr g \<and>
        (\<forall>n \<in> set (nodes g). isDependency n \<longleftrightarrow> name n \<in> target ` set (links g)))"
  using isDependency_iff_target
    [of "[\<lparr>item_name = Str ''A'', dependencies = Some [''B'']\<rparr>,
          \<lparr>item_name = Str ''B'', dependencies = Some []\<rparr>]"]
  by (simp add: has_array_def)

text \<open>
  Claim C2. For every list of records whose dependencies are arrays, the construction
  returns a graph in which the source and the target of every link are names of nodes
  of the graph, and whose links are the pairs of a record's name and one of its
  dependencies, one link for each pair in the order of the input, repetitions kept.
\<close>

theorem no_dangling_links:
  "list_all has_array data \<Longrightarrow>
   \<exists>g. GraphBuilder data = Inr g \<and>
       (\<forall>l \<in> set (links g).
          source l \<in> name ` set (nodes g) \<and> target l \<in> name ` set (nodes g)) \<and>
       links g = all_links data"
proof -
  assume h: "list_all has_array data"
  then obtain g where a: "GraphBuilder data = Inr g"
    using GraphBuilder_returns by blast
  then have l: "links g = all_links data"
    by (simp add: GraphBuilder_Inr)
  have n: "name ` set (nodes g) = set (all_names data)"
    using names_nodes [OF a] set_first_seen [of "all_names data"] by (metis set_map)
  have "source l \<in> name ` set (nodes g) \<and> target l \<in> name ` set (nodes g)"
    if "l \<in> set (links g)" for l
  proof -
    from that l have "source l \<in> item_name ` set data"
      by (simp add: source_all_links)
    moreover from that l have "target l \<in> (\<Union>item \<in> set data. Str ` set (deps_of item))"
      using target_all_links [of data] by (metis imageI)
    ultimately show ?thesis
      unfolding n set_all_names by simp
  qed
  with a l show ?thesis by blast
qed

theorem no_dangling_links_witness:
  "list_all has_array
     [\<lparr>item_name = Str ''A'', dependencies = Some [''B'', ''B'']\<rparr>,
      \<lparr>item_name = Str ''B'', dependencies = Some []\<rparr>] \<and>
   (\<exists>g. GraphBuilder [\<lparr>item_name = Str ''A'', dependencies = Some [''B'', ''B'']\<rparr>,
                       \<lparr>item_name = Str ''B'', dependencies = Some []\<rparr>] = Inr g \<and>
        (\<forall>l \<in> set (links g).
           source l \<in> name ` set (nodes g) \<and> target l \<in> name ` set (nodes g)) \<and>
        links g = [\<lparr>source = Str ''A'', target = Str ''B''\<rparr>,
                   \<lparr>source = Str ''A'', target = Str ''B''\<rparr>])"
  using no_dangling_links
    [of "[\<lparr>item_name = Str ''A'', dependencies = Some [''B'', ''B'']\<rparr>,
          \<lparr>item_name = Str ''B'', dependencies = Some []\<rparr>]"]
  by (simp add: has_array_def all_links_def item_links_def deps_of_def)

text \<open>
  Claim C3. For every list of records whose dependencies are arrays, the construction
  returns a graph whose nodes have pairwise different names, the names being those that
  occur as the name of a record or in an array of dependencies; so the number of nodes
  is the number of distinct such names. The name of a record without name is the value
  \<^verbatim>\<open>undefined\<close>, which counts as one name.
\<close>

theorem one_node_per_name:
  "list_all has_array data \<Longrightarrow>
   \<exists>g. GraphBuilder data = Inr g \<and>
       distinct (map name (nodes g)) \<and>
       set (map name (nodes g)) = set (all_names data) \<and>
       length (nodes g) = card (set (all_names data))"
proof -
  assume h: "list_all has_array data"
  then obtain g where a: "GraphBuilder data = Inr g"
    using GraphBuilder_returns by blast
  have m: "map name (nodes g) = first_seen (all_names data)"
    by (rule names_nodes [OF a])
  have "length (nodes g) = length (map name (nodes g))"
    by simp
  also have "\<dots> = card (set (first_seen (all_names data)))"
    unfolding m by (simp add: distinct_card distinct_first_seen)
  finally have "length (nodes g) = card (set (all_names data))"
    by (simp add: set_first_seen)
  with a m show ?thesis
    by (metis distinct_first_seen set_first_seen)
qed

theorem one_node_per_name_witness:
  "list_all has_array
     [\<lparr>item_name = Str ''A'', dependencies = Some [''B'', ''C'', ''B'']\<rparr>,
      \<lparr>item_name = Str ''B'', dependencies = Some [''C'']\<rparr>] \<and>
   (\<exists>g. GraphBuilder [\<lparr>item_name = Str ''A'', dependencies = Some [''B'', ''C'', ''B'']\<rparr>,
                       \<lparr>item_name = Str ''B'', dependencies = Some [''C'']\<rparr>] = Inr g \<and>
        distinct (map name (nodes g)) \<and>
        set (map name (nodes g)) = {Str ''A'', Str ''B'', Str ''C''} \<and>
        length (nodes g) = 3)"
proof -
  let ?data = "[\<lparr>item_name = Str ''A'', dependencies = Some [''B'', ''C'', ''B'']\<rparr>,
                \<lparr>item_name = Str ''B'', dependencies = Some [''C'']\<rparr>]"
  have h: "list_all has_array ?data"
    by (simp add: has_array_def)
  have s: "set (all_names ?data) = {Str ''A'', Str ''B'', Str ''C''}"
    by (auto simp: all_names_def item_names_def deps_of_def)
  have c: "card {Str ''A'', Str ''B'', Str ''C''} = 3"
    by simp
  from one_node_per_name [OF h] obtain g where
    "GraphBuilder ?data = Inr g" "distinct (map name (nodes g))"
    "set (map name (nodes g)) = set (all_names ?data)"
    "length (nodes g) = card (set (all_names ?data))"
    by blast
  with h s c show ?thesis
    by metis
qed

text \<open>
  Claim C4. For every node of the graph that the construction returns, \<open>model_url\<close> is
  the fixed path \<open>url\<close> followed by the name of the node when some record of the input
  has the name of the node, and is null when no record has it.
\<close>

theorem model_url_iff_record:
  "list_all has_array data \<Longrightarrow>
   \<exists>g. GraphBuilder data = Inr g \<and>
       (\<forall>n \<in> set (nodes g).
          model_url n = (if \<exists>item \<in> set data. item_name item = name n
                         then Some (url @ toString (name n)) else None))"
  by (auto simp: GraphBuilder_Inr new_node_def getModelUrl_eq)

theorem model_url_iff_record_witness:
  "list_all has_array [\<lparr>item_name = Str ''A'', dependencies = Some [''B'']\<rparr>] \<and>
   (\<exists>g. GraphBuilder [\<lparr>item_name = Str ''A'', dependencies = Some [''B'']\<rparr>] = Inr g \<and>
        (\<forall>n \<in> set (nodes g).
           model_url n =
             (if \<exists>item \<in> set [\<lparr>item_name = Str ''A'', dependencies = Some [''B'']\<rparr>].
                   item_name item = name n
              then Some (url @ toString (name n)) else None)))"
  using model_url_iff_record [of "[\<lparr>item_name = Str ''A'', dependencies = Some [''B'']\<rparr>]"]
  by (simp add: has_array_def)

subsection \<open>Clicking a node\<close>

lemma truthy_url_getModelUrl: "truthy_url (getModelUrl data v) = (getModelUrl data v \<noteq> None)"
  by (simp add: getModelUrl_eq truthy_url_def url_def)

lemma click_eq:
  "click d =
     (if truthy_url (model_url d)
      then [(''/BeSLighthouse/model_report/:'' @ toString (name d), ''_blank'')] else [])"
  by (simp add: click_def handleNodeClick_def truthy_active_def)

text \<open>
  Claim C5, as amended. For every node of the graph that the construction returns, a
  click on the node opens exactly one window when \<open>model_url\<close> is not null, at the
  address \<^verbatim>\<open>/BeSLighthouse/model_report/:\<close> followed by the name of the node, and opens
  none when \<open>model_url\<close> is null. Here \<open>d\<close> is the node object as the simulation and the
  drag handlers have left it at the time of the click: they write its coordinates,
  velocities and pinned coordinates only, so the statement covers in particular a node
  that is not being dragged.
\<close>

theorem click_opens_report:
  "list_all has_array data \<Longrightarrow>
   \<exists>g. GraphBuilder data = Inr g \<and>
       (\<forall>n \<in> set (nodes g). \<forall>d. name d = name n \<and> model_url d = model_url n \<longrightarrow>
          click d =
            (if model_url n \<noteq> None
             then [(''/BeSLighthouse/model_report/:'' @ toString (name n), ''_blank'')]
             else []))"
  by (auto simp: GraphBuilder_Inr new_node_def click_eq truthy_url_getModelUrl)

theorem click_opens_report_witness:
  "list_all has_array [\<lparr>item_name = Str ''A'', dependencies = Some [''B'']\<rparr>] \<and>
   (\<exists>g. GraphBuilder [\<lparr>item_name = Str ''A'', dependencies = Some [''B'']\<rparr>] = Inr g \<and>
       (\<forall>n \<in> set (nodes g). \<forall>d. name d = name n \<and> model_url d = model_url n \<longrightarrow>
          click d =
            (if model_url n \<noteq> None
             then [(''/BeSLighthouse/model_report/:'' @ toString (name n), ''_blank'')]
             else [])))"
  using click_opens_report [of "[\<lparr>item_name = Str ''A'', dependencies = Some [''B'']\<rparr>]"]
  by (simp add: has_array_def)

text \<open>
  Claim C5 as stated fails: the address that a click opens is not the \<open>model_url\<close> of
  the node. For the single record named A the node has the \<open>model_url\<close>
  \<^verbatim>\<open>/BeSLighthouse/model_reportA\<close>, and the click opens \<^verbatim>\<open>/BeSLighthouse/model_report/:A\<close>.
\<close>

theorem click_url_counterexample:
  "GraphBuilder [\<lparr>item_name = Str ''A'', dependencies = Some []\<rparr>] =
     Inr \<lparr>nodes = [\<lparr>x = None, y = None, vx = None, vy = None, fx = None, fy = None,
                     name = Str ''A'', color = ''#0077cc'',
                     model_url = Some ''/BeSLighthouse/model_reportA'',
                     isDependency = False\<rparr>],
          links = []\<rparr> \<and>
   click
     \<lparr>x = None, y = None, vx = None, vy = None, fx = None, fy = None,
      name = Str ''A'', color = ''#0077cc'',
      model_url = Some ''/BeSLighthouse/model_reportA'', isDependency = False\<rparr> =
     [(''/BeSLighthouse/model_report/:A'', ''_blank'')] \<and>
   ''/BeSLighthouse/model_report/:A'' \<noteq> ''/BeSLighthouse/model_reportA''"
  by (simp add: GraphBuilder_eval click_eq truthy_url_def)

subsection \<open>Records of the wrong shape\<close>

text \<open>
  Claim C6, as amended. When some record of the input has no array of dependencies, the
  construction fails with a \<^verbatim>\<open>TypeError\<close> and returns no graph, neither nodes nor
  links. Otherwise it returns a graph, also when a record has no name.
\<close>

theorem fails_iff_no_array:
  "if \<exists>item \<in> set data. dependencies item = None
   then GraphBuilder data = Inl TypeError
   else \<exists>g. GraphBuilder data = Inr g"
proof (cases "list_all has_array data")
  case True
  then have "\<not> (\<exists>item \<in> set data. dependencies item = None)"
    by (auto simp: list_all_iff has_array_def)
  with GraphBuilder_returns [OF True] show ?thesis by (simp only: if_False)
next
  case False
  then have "\<exists>item \<in> set data. dependencies item = None"
    by (auto simp: list_all_iff has_array_def)
  with GraphBuilder_Inl [OF False] show ?thesis by (simp only: if_True)
qed

theorem fails_iff_no_array_witness:
  "GraphBuilder [\<lparr>item_name = Str ''A'', dependencies = None\<rparr>] = Inl TypeError \<and>
   (\<exists>g. GraphBuilder [\<lparr>item_name = Undefined, dependencies = Some [''B'']\<rparr>] = Inr g)"
  using fails_iff_no_array [of "[\<lparr>item_name = Str ''A'', dependencies = None\<rparr>]"]
    fails_iff_no_array [of "[\<lparr>item_name = Undefined, dependencies = Some [''B'']\<rparr>]"]
  by simp

text \<open>
  Claim C6 as stated fails: a record that has no name but an array of dependencies does
  not make the construction fail. It yields a node whose name is \<^verbatim>\<open>undefined\<close>.
\<close>

theorem missing_name_counterexample:
  "GraphBuilder [\<lparr>item_name = Undefined, dependencies = Some []\<rparr>] =
     Inr \<lparr>nodes = [\<lparr>x = None, y = None, vx = None, vy = None, fx = None, fy = None,
                     name = Undefined, color = ''#0077cc'',
                     model_url = Some ''/BeSLighthouse/model_reportundefined'',
                     isDependency = False\<rparr>],
          links = []\<rparr>"
  by (simp add: GraphBuilder_eval)

subsection \<open>Fetching\<close>

lemmas GraphDisplay_eval =
  GraphDisplay_def then_promise_def catch_promise_def on_response_def on_data_def on_error_def

text \<open>
  Claim C7, as amended. For a response that is not \<open>ok\<close> the chain fails with an
  \<^verbatim>\<open>Error\<close> whose message is \<^verbatim>\<open>Failed to fetch data. Status: \<close> followed by the status
  code; for a response that is \<open>ok\<close> and whose body fails to parse it fails with the error
  of the parser. In both cases the error is caught, its message is written to the
  console and no graph is rendered. Whatever \<^verbatim>\<open>fetch\<close> settles with, no error leaves
  the effect.
\<close>

theorem fetch_failure_logged:
  "(\<not> ok response \<longrightarrow>
      GraphDisplay (Inr response) =
        Inr \<lparr>console = [Error (''Failed to fetch data. Status: '' @ show_nat (status response))],
             rendered = None\<rparr>) \<and>
   (ok response \<and> json response = Inl diagnostic \<longrightarrow>
      GraphDisplay (Inr response) = Inr \<lparr>console = [SyntaxError diagnostic], rendered = None\<rparr>) \<and>
   (\<exists>view. GraphDisplay fetched = Inr view)"
  by (auto simp: GraphDisplay_eval split: sum.splits)

theorem fetch_failure_logged_witness:
  "\<not> ok \<lparr>status = 500, json = Inr []\<rparr> \<and>
   GraphDisplay (Inr \<lparr>status = 500, json = Inr []\<rparr>) =
     Inr \<lparr>console = [Error ''Failed to fetch data. Status: 500''], rendered = None\<rparr> \<and>
   ok \<lparr>status = 200, json = Inl ''Unexpected end of JSON input''\<rparr> \<and>
   GraphDisplay (Inr \<lparr>status = 200, json = Inl ''Unexpected end of JSON input''\<rparr>) =
     Inr \<lparr>console = [SyntaxError ''Unexpected end of JSON input''], rendered = None\<rparr>"
proof -
  have s: "show_nat 500 = ''500''"
    by (simp add: show_nat.simps)
  show ?thesis
    using fetch_failure_logged [of "\<lparr>status = 500, json = Inr []\<rparr>"]
      fetch_failure_logged
        [of "\<lparr>status = 200, json = Inl ''Unexpected end of JSON input''\<rparr>"
            "''Unexpected end of JSON input''"]
    by (simp add: ok_def s)
qed

text \<open>
  Claim C7 as stated fails: a response with the status 203 is not a 200 response, yet
  it is \<open>ok\<close>, nothing fails and the graph is built from its body.
\<close>

theorem status_203_counterexample:
  "status \<lparr>status = 203, json = Inr [\<lparr>item_name = Str ''A'', dependencies = Some []\<rparr>]\<rparr> \<noteq> 200 \<and>
   GraphDisplay (Inr \<lparr>status = 203, json = Inr [\<lparr>item_name = Str ''A'', dependencies = Some []\<rparr>]\<rparr>) =
     Inr \<lparr>console = [],
          rendered = Some \<lparr>nodes = [\<lparr>x = None, y = None, vx = None, vy = None, fx = None,
                                      fy = None, name = Str ''A'', color = ''#0077cc'',
                                      model_url = Some ''/BeSLighthouse/model_reportA'',
                                      isDependency = False\<rparr>],
                           links = []\<rparr>\<rparr>"
  by (simp add: GraphDisplay_eval ok_def GraphBuilder_eval)

subsection \<open>Dragging a node\<close>

lemma length_step: "length (sim_nodes (step free e sim)) = length (sim_nodes sim)"
  by (cases e) (simp_all add: tick_def dragstarted_def dragged_def dragended_def update_node_def)

lemma pinned_tick_node:
  "fx n = Some a \<Longrightarrow> fy n = Some b \<Longrightarrow> tick_node free ns n = n\<lparr>x := Some a, y := Some b\<rparr>"
  by (simp add: tick_node_def)

lemma nth_update_node:
  "i \<noteq> j \<Longrightarrow> sim_nodes (update_node j f sim) ! i = sim_nodes sim ! i"
  by (simp add: update_node_def)

lemma pinned_step:
  assumes "i < length (sim_nodes sim)" and "\<not> drag_of i e"
    and "fx (sim_nodes sim ! i) = Some a" and "fy (sim_nodes sim ! i) = Some b"
  shows "fx (sim_nodes (step free e sim) ! i) = Some a \<and>
         fy (sim_nodes (step free e sim) ! i) = Some b"
proof (cases e)
  case Tick
  with assms show ?thesis
    by (simp add: tick_def pinned_tick_node)
next
  case (DragStart ev j)
  with assms have "i \<noteq> j" by simp
  with assms DragStart show ?thesis
    by (simp add: dragstarted_def nth_update_node)
next
  case (Drag ev j)
  with assms have "i \<noteq> j" by simp
  with assms Drag show ?thesis
    by (simp add: dragged_def nth_update_node)
next
  case (DragEnd ev j)
  with assms have "i \<noteq> j" by simp
  with assms DragEnd show ?thesis
    by (simp add: dragended_def nth_update_node)
qed

lemma pinned_run:
  "i < length (sim_nodes sim) \<Longrightarrow> \<forall>e \<in> set es. \<not> drag_of i e \<Longrightarrow>
   fx (sim_nodes sim ! i) = Some a \<Longrightarrow> fy (sim_nodes sim ! i) = Some b \<Longrightarrow>
   i < length (sim_nodes (run free es sim)) \<and>
   fx (sim_nodes (run free es sim) ! i) = Some a \<and>
   fy (sim_nodes (run free es sim) ! i) = Some b"
proof (induction es arbitrary: sim)
  case Nil
  then show ?case by (simp add: run_def)
next
  case (Cons e es)
  have 1: "i < length (sim_nodes (step free e sim))"
    using Cons.prems(1) by (simp add: length_step)
  have 2: "\<forall>e \<in> set es. \<not> drag_of i e"
    using Cons.prems(2) by simp
  have 3: "fx (sim_nodes (step free e sim) ! i) = Some a \<and>
        fy (sim_nodes (step free e sim) ! i) = Some b"
    using pinned_step [of i sim e a b free] Cons.prems by simp
  from Cons.IH [OF 1 2] 3 show ?case
    by (simp add: run_def)
qed

lemma run_append: "run free (es @ es') sim = run free es' (run free es sim)"
  by (simp add: run_def)

lemma run_Cons: "run free (e # es) sim = run free es (step free e sim)"
  by (simp add: run_def)

lemma dragged_pins:
  "i < length (sim_nodes sim) \<Longrightarrow>
   fx (sim_nodes (dragged ev i sim) ! i) = Some (event_x ev) \<and>
   fy (sim_nodes (dragged ev i sim) ! i) = Some (event_y ev)"
  by (simp add: dragged_def update_node_def)

lemma dragstarted_pins:
  "i < length (sim_nodes sim) \<Longrightarrow>
   fx (sim_nodes (dragstarted ev i sim) ! i) = x (sim_nodes sim ! i) \<and>
   fy (sim_nodes (dragstarted ev i sim) ! i) = y (sim_nodes sim ! i)"
  by (simp add: dragstarted_def update_node_def)

lemma tick_pinned:
  "i < length (sim_nodes sim) \<Longrightarrow>
   fx (sim_nodes sim ! i) = Some a \<Longrightarrow> fy (sim_nodes sim ! i) = Some b \<Longrightarrow>
   x (sim_nodes (tick free sim) ! i) = Some a \<and> y (sim_nodes (tick free sim) ! i) = Some b"
  by (simp add: tick_def pinned_tick_node)

text \<open>
  Claim C8. While a node is dragged, its position after any tick is the last position
  of the pointer: once \<^verbatim>\<open>dragged\<close> has set the pinned coordinates of the \<open>i\<close>-th node to
  the pointer position, and as long as no other drag event of that node follows (ticks
  and drag events of other nodes may), the position of the node after a tick is that
  pointer position, whatever the free integration does. The tick is the one modelled
  above; the handlers are those of the source.
\<close>

theorem dragged_node_follows_pointer:
  assumes "i < length (sim_nodes sim)" and "\<forall>e \<in> set es. \<not> drag_of i e"
  shows "x (sim_nodes (run free (Drag ev i # es @ [Tick]) sim) ! i) = Some (event_x ev) \<and>
         y (sim_nodes (run free (Drag ev i # es @ [Tick]) sim) ! i) = Some (event_y ev)"
proof -
  let ?s1 = "dragged ev i sim"
  let ?s2 = "run free es ?s1"
  have l: "i < length (sim_nodes ?s1)"
    using assms(1) by (simp add: dragged_def update_node_def)
  have "i < length (sim_nodes ?s2) \<and> fx (sim_nodes ?s2 ! i) = Some (event_x ev) \<and>
        fy (sim_nodes ?s2 ! i) = Some (event_y ev)"
    using pinned_run [OF l assms(2)] dragged_pins [OF assms(1)] by blast
  then have "x (sim_nodes (tick free ?s2) ! i) = Some (event_x ev) \<and>
             y (sim_nodes (tick free ?s2) ! i) = Some (event_y ev)"
    using tick_pinned by blast
  then show ?thesis
    by (simp add: run_Cons run_append run_def)
qed

theorem dragged_node_follows_pointer_witness:
  "(1::nat) < length (sim_nodes \<lparr>sim_nodes = [new_node [] (Str ''A''), new_node [] (Str ''B'')],
                                alphaTarget = 0, running = True\<rparr>) \<and>
   list_all (\<lambda>e. \<not> drag_of 1 e) [Tick, Drag \<lparr>active = 1, event_x = 9, event_y = 9\<rparr> 0, Tick] \<and>
   x (sim_nodes (run (\<lambda>ns n. n\<lparr>x := Some 7, y := Some 7\<rparr>)
        (Drag \<lparr>active = 0, event_x = 3, event_y = 4\<rparr> 1 #
         [Tick, Drag \<lparr>active = 1, event_x = 9, event_y = 9\<rparr> 0, Tick] @ [Tick])
        \<lparr>sim_nodes = [new_node [] (Str ''A''), new_node [] (Str ''B'')],
         alphaTarget = 0, running = True\<rparr>) ! 1) = Some 3 \<and>
   y (sim_nodes (run (\<lambda>ns n. n\<lparr>x := Some 7, y := Some 7\<rparr>)
        (Drag \<lparr>active = 0, event_x = 3, event_y = 4\<rparr> 1 #
         [Tick, Drag \<lparr>active = 1, event_x = 9, event_y = 9\<rparr> 0, Tick] @ [Tick])
        \<lparr>sim_nodes = [new_node [] (Str ''A''), new_node [] (Str ''B'')],
         alphaTarget = 0, running = True\<rparr>) ! 1) = Some 4"
  using dragged_node_follows_pointer
    [of 1 "\<lparr>sim_nodes = [new_node [] (Str ''A''), new_node [] (Str ''B'')],
             alphaTarget = 0, running = True\<rparr>"
        "[Tick, Drag \<lparr>active = 1, event_x = 9, event_y = 9\<rparr> 0, Tick]"
        "\<lambda>ns n. n\<lparr>x := Some 7, y := Some 7\<rparr>"
        "\<lparr>active = 0, event_x = 3, event_y = 4\<rparr>"]
  by simp

subsection \<open>The energy of the simulation\<close>

lemma alpha_engine_tick:
  "0 \<le> ratio \<Longrightarrow> ratio < 1 \<Longrightarrow> 0 \<le> alpha e \<Longrightarrow>
   0 \<le> alpha (engine_tick ratio alpha_floor free e) \<and>
   alpha (engine_tick ratio alpha_floor free e) \<le> alpha e"
proof -
  assume r: "0 \<le> ratio" "ratio < 1" and a: "0 \<le> alpha e"
  have "ratio * alpha e \<le> 1 * alpha e"
    using r a by (intro mult_right_mono) simp_all
  with r a show ?thesis
    by (simp add: engine_tick_def)
qed

lemma alpha_engine_ticks_nonneg:
  "0 \<le> ratio \<Longrightarrow> ratio < 1 \<Longrightarrow> 0 \<le> alpha e \<Longrightarrow>
   0 \<le> alpha (engine_ticks n ratio alpha_floor free e)"
  by (induction n) (simp_all add: alpha_engine_tick)

lemma alpha_engine_ticks_power:
  "alpha (engine_ticks n ratio alpha_floor free \<lparr>alpha = 1, simulation = sim\<rparr>) \<le> alpha_floor \<or>
   alpha (engine_ticks n ratio alpha_floor free \<lparr>alpha = 1, simulation = sim\<rparr>) = ratio ^ n"
  by (induction n) (auto simp: engine_tick_def)

lemma engine_ticks_rest:
  "alpha (engine_ticks N ratio alpha_floor free e) \<le> alpha_floor \<Longrightarrow>
   engine_ticks (N + k) ratio alpha_floor free e = engine_ticks N ratio alpha_floor free e"
  by (induction k) (simp_all add: engine_tick_def)

text \<open>
  Claim C9. For a ratio of decay from 0 up to but excluding 1 and a positive floor,
  there is a number \<open>N\<close> of ticks, the same for all nodes and forces, such that for an
  engine started at alpha 1 and ticked without any drag event in between: alpha after a
  tick is never greater than before it, and from \<open>N\<close> ticks on alpha is at most the
  floor and the engine, the positions of its nodes included, does not change any more.
  The engine is the one modelled above.
\<close>

theorem alpha_reaches_floor:
  assumes "0 \<le> ratio" and "ratio < 1" and "0 < alpha_floor"
  shows "\<exists>N. \<forall>free sim.
           (\<forall>n. alpha (engine_ticks (Suc n) ratio alpha_floor free \<lparr>alpha = 1, simulation = sim\<rparr>)
                 \<le> alpha (engine_ticks n ratio alpha_floor free \<lparr>alpha = 1, simulation = sim\<rparr>)) \<and>
           (\<forall>n \<ge> N.
              alpha (engine_ticks n ratio alpha_floor free \<lparr>alpha = 1, simulation = sim\<rparr>)
                \<le> alpha_floor \<and>
              engine_ticks n ratio alpha_floor free \<lparr>alpha = 1, simulation = sim\<rparr> =
                engine_ticks N ratio alpha_floor free \<lparr>alpha = 1, simulation = sim\<rparr>)"
proof -
  obtain N where N: "ratio ^ N < alpha_floor"
    using real_arch_pow_inv [OF assms(3) assms(2)] by blast
  have "(\<forall>n. alpha (engine_ticks (Suc n) ratio alpha_floor free \<lparr>alpha = 1, simulation = sim\<rparr>)
              \<le> alpha (engine_ticks n ratio alpha_floor free \<lparr>alpha = 1, simulation = sim\<rparr>)) \<and>
        (\<forall>n \<ge> N.
           alpha (engine_ticks n ratio alpha_floor free \<lparr>alpha = 1, simulation = sim\<rparr>)
             \<le> alpha_floor \<and>
           engine_ticks n ratio alpha_floor free \<lparr>alpha = 1, simulation = sim\<rparr> =
             engine_ticks N ratio alpha_floor free \<lparr>alpha = 1, simulation = sim\<rparr>)"
    for free sim
  proof -
    let ?E = "\<lambda>n. engine_ticks n ratio alpha_floor free \<lparr>alpha = 1, simulation = sim\<rparr>"
    have mono: "alpha (?E (Suc n)) \<le> alpha (?E n)" for n
      using alpha_engine_tick [OF assms(1,2), of "?E n" alpha_floor free]
        alpha_engine_ticks_nonneg [OF assms(1,2), of "\<lparr>alpha = 1, simulation = sim\<rparr>" n alpha_floor free]
      by simp
    have atN: "alpha (?E N) \<le> alpha_floor"
      using alpha_engine_ticks_power [of N ratio alpha_floor free sim] N by auto
    have rest: "alpha (?E n) \<le> alpha_floor \<and> ?E n = ?E N" if "N \<le> n" for n
    proof -
      from that obtain k where "n = N + k"
        using le_Suc_ex by blast
      with engine_ticks_rest [OF atN, of k] atN show ?thesis
        by simp
    qed
    from mono rest show ?thesis
      by blast
  qed
  then show ?thesis
    by blast
qed

theorem alpha_reaches_floor_witness:
  "(0::real) \<le> 1 / 2 \<and> (1 / 2 :: real) < 1 \<and> (0::real) < 1 / 1000 \<and>
   (\<exists>N. \<forall>free sim.
      (\<forall>n. alpha (engine_ticks (Suc n) (1 / 2) (1 / 1000) free \<lparr>alpha = 1, simulation = sim\<rparr>)
            \<le> alpha (engine_ticks n (1 / 2) (1 / 1000) free \<lparr>alpha = 1, simulation = sim\<rparr>)) \<and>
      (\<forall>n \<ge> N.
         alpha (engine_ticks n (1 / 2) (1 / 1000) free \<lparr>alpha = 1, simulation = sim\<rparr>)
           \<le> 1 / 1000 \<and>
         engine_ticks n (1 / 2) (1 / 1000) free \<lparr>alpha = 1, simulation = sim\<rparr> =
           engine_ticks N (1 / 2) (1 / 1000) free \<lparr>alpha = 1, simulation = sim\<rparr>))"
  using alpha_reaches_floor [of "1 / 2" "1 / 1000"]
  by simp

subsection \<open>Rendering on a tick\<close>

lemma or_zero_eq: "or_zero v = (if truthy v then the v else 0)"
  by (simp add: or_zero_def truthy_def split: option.splits)

text \<open>
  Claim C10. Every coordinate that \<^verbatim>\<open>ticked\<close> sets, for the two ends of a line, for a
  circle and for a text, is the \<open>x\<close> (or \<open>y\<close>) of the node when that value is truthy, and 0
  otherwise. A node without position is drawn at the origin, and a node at the
  coordinate 0 is drawn as a node without position.
\<close>

theorem ticked_coordinates:
  "ticked link node =
     \<lparr>line = map (\<lambda>d. (if truthy (x (source d)) then the (x (source d)) else 0,
                       if truthy (y (source d)) then the (y (source d)) else 0,
                       if truthy (x (target d)) then the (x (target d)) else 0,
                       if truthy (y (target d)) then the (y (target d)) else 0)) link,
      circle = map (\<lambda>d. (if truthy (x d) then the (x d) else 0,
                         if truthy (y d) then the (y d) else 0)) node,
      text_xy = map (\<lambda>d. (if truthy (x d) then the (x d) else 0,
                          if truthy (y d) then the (y d) else 0)) node\<rparr> \<and>
   ticked [] [d\<lparr>x := None, y := None\<rparr>] = \<lparr>line = [], circle = [(0, 0)], text_xy = [(0, 0)]\<rparr> \<and>
   ticked [] [d\<lparr>x := Some 0, y := Some 0\<rparr>] = ticked [] [d\<lparr>x := None, y := None\<rparr>]"
  by (simp add: ticked_def or_zero_eq truthy_def)

end
